theory Spec2Isabelle
  imports Main "HOL-Library.Sublist"
begin

section \<open>JavaScript values used by the server functions\<close>

text \<open>
  An instant (a JavaScript \<open>Date\<close>, a \<open>timestamptz\<close> of the store) is its number of
  milliseconds since 1970-01-01T00:00:00Z, as \<open>Date.getTime\<close> reads it. The UTC
  calendar-date string \<open>toISOString().split("T")[0]\<close> of an instant is represented by the
  number of its UTC day (days since 1970-01-01): for the four-digit years in which the
  string has the form YYYY-MM-DD, two such strings are equal exactly when the day numbers
  are, they sort (as strings) in the order of the day numbers, and parsing the string with
  \<open>"T00:00:00.000Z"\<close> appended gives the midnight that starts the day.
\<close>

type_synonym instant = int

definition MS_PER_DAY :: int where
  "MS_PER_DAY = 24 * 60 * 60 * 1000"

definition isoDate :: "instant \<Rightarrow> int" where
  "isoDate t = t div MS_PER_DAY"

definition midnightOf :: "int \<Rightarrow> instant" where
  "midnightOf d = d * MS_PER_DAY"

text \<open>\<open>Math.round(a / b)\<close> for a positive divisor: the nearest integer, halves upwards.\<close>

definition Math_round_div :: "int \<Rightarrow> int \<Rightarrow> int" where
  "Math_round_div a b = (2 * a + b) div (2 * b)"

text \<open>\<open>Array.from(new Set(xs))\<close>: the distinct elements in order of first occurrence.\<close>

definition Set_of_list :: "'a list \<Rightarrow> 'a list" where
  "Set_of_list xs = foldl (\<lambda>acc x. if x \<in> set acc then acc else acc @ [x]) [] xs"

text \<open>\<open>String(n)\<close> for an integral number: decimal digits, a minus sign when negative.\<close>

definition digit_char :: "nat \<Rightarrow> char" where
  "digit_char d = ''0123456789'' ! d"

fun string_of_nat :: "nat \<Rightarrow> string" where
  "string_of_nat n =
     (if n < 10 then [digit_char n] else string_of_nat (n div 10) @ [digit_char (n mod 10)])"

declare string_of_nat.simps [simp del]

definition String :: "int \<Rightarrow> string" where
  "String i = (if i < 0 then CHR ''-'' # string_of_nat (nat (- i)) else string_of_nat (nat i))"

text \<open>Truthiness of a \<open>number | null\<close>: \<open>null\<close> and \<open>0\<close> are falsy.\<close>

definition truthy :: "int option \<Rightarrow> bool" where
  "truthy v = (case v of None \<Rightarrow> False | Some n \<Rightarrow> n \<noteq> 0)"


section \<open>Routine view builder: the rep-range fallback\<close>

text \<open>
  \<^verbatim>\<open>
  function formatRepsFallback(min: number | null, max: number | null): string {
    if (min && max && min !== max) { return `${min}-${max}`; }
    if (min) { return String(min); }
    return "10";
  }\<close>
\<close>

definition formatRepsFallback :: "int option \<Rightarrow> int option \<Rightarrow> string" where
  "formatRepsFallback mn mx =
     (case (mn, mx) of
        (Some a, Some b) \<Rightarrow>
          if a \<noteq> 0 \<and> b \<noteq> 0 \<and> a \<noteq> b then String a @ ''-'' @ String b
          else if a \<noteq> 0 then String a
          else ''10''
      | (Some a, None) \<Rightarrow> if a \<noteq> 0 then String a else ''10''
      | (None, _) \<Rightarrow> ''10'')"


section \<open>Streak calculator\<close>

record StreakStats =
  currentStreak :: nat
  longestStreak :: nat
  lastWorkoutDate :: "int option"
  totalWorkouts :: nat

text \<open>
  The body of \<open>uniqueDatesAsc.forEach\<close>; the state is
  \<open>(longestStreak, streakCounter, previousDate)\<close>.
\<close>

definition scanDate :: "nat \<times> nat \<times> instant option \<Rightarrow> int \<Rightarrow> nat \<times> nat \<times> instant option" where
  "scanDate s dateStr =
     (case s of (longest, streakCounter, previousDate) \<Rightarrow>
        let currentDate = midnightOf dateStr;
            streakCounter' =
              (case previousDate of
                 None \<Rightarrow> 1
               | Some prev \<Rightarrow>
                   if Math_round_div (currentDate - prev) MS_PER_DAY = 1
                   then streakCounter + 1 else 1)
        in (max longest streakCounter', streakCounter', Some currentDate))"

text \<open>
  The \<open>for\<close> loop over \<open>uniqueDatesDesc[1..]\<close>: the expected date steps one day back
  before each comparison, and the first mismatch breaks.
\<close>

fun walkBack :: "int \<Rightarrow> int list \<Rightarrow> nat \<Rightarrow> nat" where
  "walkBack expectedDate [] current = current"
| "walkBack expectedDate (d # ds) current =
     (if d = expectedDate - 1 then walkBack (expectedDate - 1) ds (current + 1) else current)"

definition computeStreakStats :: "instant list \<Rightarrow> instant \<Rightarrow> StreakStats" where
  "computeStreakStats sessionLogs now =
     (if sessionLogs = [] then
        \<lparr>currentStreak = 0, longestStreak = 0, lastWorkoutDate = None, totalWorkouts = 0\<rparr>
      else
        let uniqueDates = Set_of_list (map isoDate sessionLogs);
            uniqueDatesAsc = sort uniqueDates;
            uniqueDatesDesc = rev (sort uniqueDates);
            todayStr = isoDate now;
            longest = fst (foldl scanDate (0, 0, None) uniqueDatesAsc);
            current =
              (case uniqueDatesDesc of
                 [] \<Rightarrow> 0
               | d0 # rest \<Rightarrow> if d0 = todayStr then walkBack todayStr rest 1 else 0)
        in \<lparr>currentStreak = current, longestStreak = longest,
            lastWorkoutDate = (case uniqueDatesDesc of [] \<Rightarrow> None | d0 # _ \<Rightarrow> Some d0),
            totalWorkouts = length sessionLogs\<rparr>)"

text \<open>
  What the streaks are meant to be, on a set of day numbers: the greatest number of
  consecutive days that all lie in the set, and the number of days met walking back from
  a day until the first day that is missing.
\<close>

definition longest_run :: "int set \<Rightarrow> nat" where
  "longest_run S = Max {k. \<exists>d. \<forall>i<k. d + int i \<in> S}"

definition run_back :: "int set \<Rightarrow> int \<Rightarrow> nat" where
  "run_back S d = (LEAST k. d - int k \<notin> S)"


section \<open>Weekly goal evaluator\<close>

record WeeklyGoalStats =
  goal :: int
  completed :: nat
  weekStart :: instant

text \<open>\<open>getUTCDay\<close>: 0 is Sunday; 1970-01-01 was a Thursday.\<close>

definition getUTCDay :: "instant \<Rightarrow> int" where
  "getUTCDay t = (isoDate t + 4) mod 7"

definition startOfWeek :: "instant \<Rightarrow> instant" where
  "startOfWeek date =
     (let result = midnightOf (isoDate date);
          day = getUTCDay result;
          diff = (day + 6) mod 7
      in result - diff * MS_PER_DAY)"

definition computeWeeklyGoal :: "int option \<Rightarrow> instant list \<Rightarrow> int \<Rightarrow> instant \<Rightarrow> WeeklyGoalStats" where
  "computeWeeklyGoal training_frequency_goal sessionLogs routineCount now =
     (let weekStart = startOfWeek now;
          weekEnd = weekStart + 7 * MS_PER_DAY;
          completed = length (filter (\<lambda>performed. performed \<ge> weekStart \<and> performed < weekEnd) sessionLogs);
          goal = (case training_frequency_goal of
                    Some g \<Rightarrow> if g \<noteq> 0 \<and> g > 0 then g else routineCount
                  | None \<Rightarrow> routineCount)
      in \<lparr>goal = goal, completed = completed, weekStart = weekStart\<rparr>)"


section \<open>The backing store\<close>

text \<open>
  The relational store behind the server, with the tables and constraints of
  \<open>supabase/migrations/20251108221741_initial_schema.sql\<close> and
  \<open>..._add_routine_exercise_sets.sql\<close> that the catalog resolver and the routine upsert
  touch. A \<open>uuid\<close> is a natural number and \<open>gen_random_uuid()\<close> is a counter, so a new
  row's id is fresh. Numbers are integral. Every request to the store can also fail for a
  reason outside the data (the store is unreachable, a timeout): the list \<open>outages\<close> says,
  request by request, whether the next request fails that way; an empty list means no
  such failure. \<open>console\<close> collects what the server writes with \<open>console.error\<close>.
\<close>

type_synonym uuid = nat

record catalog_row =
  cat_id :: uuid
  cat_pt_id :: uuid
  cat_name :: string
  cat_instruction_notes :: "string option"
  cat_default_rest_seconds :: "int option"

record routine_row =
  rt_id :: uuid
  rt_pt_id :: uuid
  rt_client_id :: uuid
  rt_routine_name :: string

record routine_exercise_row =
  re_id :: uuid
  re_routine_id :: uuid
  re_exercise_id :: uuid
  re_position :: nat
  re_notes :: "string option"

record routine_exercise_set_row =
  rs_routine_exercise_id :: uuid
  rs_set_number :: nat
  rs_target_rep_range :: "string option"
  rs_target_reps :: "int option"
  rs_target_rest_seconds :: "int option"
  rs_target_weight :: "int option"

record store =
  profiles :: "uuid list"
  exercises_catalog :: "catalog_row list"
  routines :: "routine_row list"
  routine_exercises :: "routine_exercise_row list"
  routine_exercise_sets :: "routine_exercise_set_row list"
  next_uuid :: uuid
  outages :: "bool list"
  console :: "string list"

datatype db_error =
  Unavailable
  | PGRST116
  | UniqueViolation
  | ForeignKeyViolation
  | CheckViolation

datatype js_error = Error string

text \<open>One request reaches the store or fails; either way it uses up one entry of the plan.\<close>

definition request :: "store \<Rightarrow> bool \<times> store" where
  "request st =
     (case outages st of
        [] \<Rightarrow> (False, st)
      | down # rest \<Rightarrow> (down, st\<lparr>outages := rest\<rparr>))"

definition console_error :: "string \<Rightarrow> store \<Rightarrow> store" where
  "console_error msg st = st\<lparr>console := console st @ [msg]\<rparr>"

text \<open>\<open>.maybeSingle()\<close>: no row is \<open>null\<close>, one row is the row, more rows are error PGRST116.\<close>

definition maybeSingle :: "'a list \<Rightarrow> db_error + 'a option" where
  "maybeSingle rows =
     (case rows of
        [] \<Rightarrow> Inr None
      | [r] \<Rightarrow> Inr (Some r)
      | _ \<Rightarrow> Inl PGRST116)"


subsection \<open>Text: \<open>trim\<close>, \<open>lower\<close>, \<open>ILIKE\<close>\<close>

text \<open>
  Strings are lists of 8-bit characters. \<open>String.prototype.trim\<close> removes the white
  space at both ends (here: tab, line feed, vertical tab, form feed, carriage return,
  space); \<open>lower\<close> is the store's \<open>lower()\<close> on the letters A to Z.
\<close>

definition is_space :: "char \<Rightarrow> bool" where
  "is_space c = (c \<in> set [CHR 0x09, CHR 0x0A, CHR 0x0B, CHR 0x0C, CHR 0x0D, CHR 0x20])"

definition trim :: "string \<Rightarrow> string" where
  "trim s = rev (dropWhile is_space (rev (dropWhile is_space s)))"

definition lower_char :: "char \<Rightarrow> char" where
  "lower_char c =
     (case map_of (zip ''ABCDEFGHIJKLMNOPQRSTUVWXYZ'' ''abcdefghijklmnopqrstuvwxyz'') c of
        Some l \<Rightarrow> l
      | None \<Rightarrow> c)"

definition lower :: "string \<Rightarrow> string" where
  "lower s = map lower_char s"

text \<open>
  The store's \<open>LIKE\<close>: in the pattern \<open>%\<close> stands for any run of characters, \<open>_\<close> for
  any one character, and a backslash makes the character after it stand for itself; a
  pattern that ends in a lone backslash matches nothing (the store rejects it).
\<close>

fun like_match :: "string \<Rightarrow> string \<Rightarrow> bool" where
  "like_match [] s = (s = [])"
| "like_match (p # ps) s =
     (if p = CHR ''%'' then
        like_match ps s \<or> (case s of [] \<Rightarrow> False | c # cs \<Rightarrow> like_match (p # ps) cs)
      else if p = CHR ''_'' then
        (case s of [] \<Rightarrow> False | c # cs \<Rightarrow> like_match ps cs)
      else if p = CHR 0x5C then
        (case ps of
           [] \<Rightarrow> False
         | q # qs \<Rightarrow> (case s of [] \<Rightarrow> False | c # cs \<Rightarrow> c = q \<and> like_match qs cs))
      else
        (case s of [] \<Rightarrow> False | c # cs \<Rightarrow> c = p \<and> like_match ps cs))"

text \<open>
  \<open>.ilike(column, pattern)\<close>: the request layer reads \<open>*\<close> in the pattern as \<open>%\<close>, and
  the store's \<open>ILIKE\<close> is \<open>LIKE\<close> without regard to letter case.
\<close>

definition ilike :: "string \<Rightarrow> string \<Rightarrow> bool" where
  "ilike pattern s =
     like_match (lower (map (\<lambda>c. if c = CHR ''*'' then CHR ''%'' else c) pattern)) (lower s)"


subsection \<open>Requests on \<open>exercises_catalog\<close>\<close>

text \<open>
  \<open>.from("exercises_catalog").select("id").eq("id", id).eq("pt_id", ptId).maybeSingle()\<close>
\<close>

definition select_catalog_by_id :: "uuid \<Rightarrow> uuid \<Rightarrow> store \<Rightarrow> (db_error + catalog_row option) \<times> store" where
  "select_catalog_by_id cid ptId st =
     (case request st of
        (True, st') \<Rightarrow> (Inl Unavailable, st')
      | (False, st') \<Rightarrow>
          (maybeSingle (filter (\<lambda>r. cat_id r = cid \<and> cat_pt_id r = ptId) (exercises_catalog st')), st'))"

text \<open>
  \<open>.from("exercises_catalog").select("id").eq("pt_id", ptId).ilike("name", name).maybeSingle()\<close>
\<close>

definition select_catalog_by_name :: "uuid \<Rightarrow> string \<Rightarrow> store \<Rightarrow> (db_error + catalog_row option) \<times> store" where
  "select_catalog_by_name ptId pattern st =
     (case request st of
        (True, st') \<Rightarrow> (Inl Unavailable, st')
      | (False, st') \<Rightarrow>
          (maybeSingle (filter (\<lambda>r. cat_pt_id r = ptId \<and> ilike pattern (cat_name r)) (exercises_catalog st')), st'))"

text \<open>
  \<open>.insert({pt_id, name, instruction_notes, default_rest_seconds}).select("id").single()\<close>
  under the table's constraints: \<open>pt_id\<close> references a profile,
  \<open>default_rest_seconds\<close> is null or not negative, and the unique index
  \<open>exercises_catalog_unique_name_per_pt\<close> on \<open>(pt_id, lower(name))\<close>.
\<close>

definition insert_catalog ::
  "uuid \<Rightarrow> string \<Rightarrow> string option \<Rightarrow> int option \<Rightarrow> store \<Rightarrow> (db_error + catalog_row) \<times> store" where
  "insert_catalog ptId name notes rest st =
     (case request st of
        (True, st') \<Rightarrow> (Inl Unavailable, st')
      | (False, st') \<Rightarrow>
          if ptId \<notin> set (profiles st') then (Inl ForeignKeyViolation, st')
          else if (case rest of None \<Rightarrow> False | Some n \<Rightarrow> n < 0) then (Inl CheckViolation, st')
          else if \<exists>r \<in> set (exercises_catalog st'). cat_pt_id r = ptId \<and> lower (cat_name r) = lower name
            then (Inl UniqueViolation, st')
          else
            let row = \<lparr>cat_id = next_uuid st', cat_pt_id = ptId, cat_name = name,
                       cat_instruction_notes = notes, cat_default_rest_seconds = rest\<rparr>
            in (Inr row, st'\<lparr>exercises_catalog := exercises_catalog st' @ [row],
                             next_uuid := next_uuid st' + 1\<rparr>))"


section \<open>Exercise catalog resolver\<close>

record exercise_set_input =
  set_reps :: "(string + int) option"
  set_rest :: "(string + int) option"
  set_weight :: "int option"

record exercise_input =
  ex_catalogId :: "uuid option"
  ex_name :: string
  ex_notes :: "string option"
  ex_defaultRestSeconds :: "int option"
  ex_sets :: "exercise_set_input list"

text \<open>
  \<open>resolveExerciseCatalogId\<close>, lines 831 to 859: the lookup by \<open>catalogId\<close> when one is
  given, then the lookup by name. The result is the id found, or \<open>None\<close> when the function
  goes on to insert.
\<close>

definition resolve_lookup :: "uuid \<Rightarrow> exercise_input \<Rightarrow> store \<Rightarrow> uuid option \<times> store" where
  "resolve_lookup ptId exercise st =
     (let trimmedName = trim (ex_name exercise);
          (byId, st1) =
            (case ex_catalogId exercise of
               None \<Rightarrow> (None, st)
             | Some cid \<Rightarrow>
                 (case select_catalog_by_id cid ptId st of
                    (Inr (Some row), st') \<Rightarrow> (Some (cat_id row), st')
                  | (_, st') \<Rightarrow> (None, st')))
      in case byId of
           Some found \<Rightarrow> (Some found, st1)
         | None \<Rightarrow>
             (case select_catalog_by_name ptId trimmedName st1 of
                (Inr (Some existing), st2) \<Rightarrow> (Some (cat_id existing), st2)
              | (Inr None, st2) \<Rightarrow> (None, st2)
              | (Inl lookupError, st2) \<Rightarrow>
                  (None, if lookupError \<noteq> PGRST116
                         then console_error ''Lookup exercise error'' st2 else st2)))"

text \<open>Lines 861 to 876: the insert; any failure of it is thrown.\<close>

definition resolve_insert :: "uuid \<Rightarrow> exercise_input \<Rightarrow> store \<Rightarrow> (js_error + uuid) \<times> store" where
  "resolve_insert ptId exercise st =
     (case insert_catalog ptId (trim (ex_name exercise)) (ex_notes exercise)
             (ex_defaultRestSeconds exercise) st of
        (Inr inserted, st') \<Rightarrow> (Inr (cat_id inserted), st')
      | (Inl insertError, st') \<Rightarrow> (Inl (Error ''Failed to create exercise in catalog''), st'))"

definition resolveExerciseCatalogId :: "uuid \<Rightarrow> exercise_input \<Rightarrow> store \<Rightarrow> (js_error + uuid) \<times> store" where
  "resolveExerciseCatalogId ptId exercise st =
     (case resolve_lookup ptId exercise st of
        (Some found, st') \<Rightarrow> (Inr found, st')
      | (None, st') \<Rightarrow> resolve_insert ptId exercise st')"

text \<open>
  The unique index as a property of a catalog table, and the characters that mean
  something else than themselves in an \<open>.ilike\<close> pattern.
\<close>

definition catalog_unique :: "catalog_row list \<Rightarrow> bool" where
  "catalog_unique rows =
     distinct (map (\<lambda>r. (cat_pt_id r, lower (cat_name r))) rows)"

definition plain_name :: "string \<Rightarrow> bool" where
  "plain_name s = (\<forall>c \<in> set s. c \<notin> set [CHR ''%'', CHR ''_'', CHR 0x5C, CHR ''*''])"


section \<open>Routine upsert coordinator\<close>

subsection \<open>The set payload\<close>

text \<open>
  \<open>Number(s)\<close> of a string, for whole numbers: white space around is dropped, the
  empty string is 0, an optional sign and decimal digits give the number, anything else
  is \<open>NaN\<close> (here \<open>None\<close>, which is also what reaches the store, as \<open>null\<close>).
\<close>

definition digit_of :: "char \<Rightarrow> nat option" where
  "digit_of c = map_of (zip ''0123456789'' [0 ..< 10]) c"

fun parse_digits :: "string \<Rightarrow> nat \<Rightarrow> nat option" where
  "parse_digits [] acc = Some acc"
| "parse_digits (c # cs) acc =
     (case digit_of c of None \<Rightarrow> None | Some d \<Rightarrow> parse_digits cs (10 * acc + d))"

definition unsigned_of :: "string \<Rightarrow> int option" where
  "unsigned_of s = (if s = [] then None else map_option int (parse_digits s 0))"

definition Number :: "string \<Rightarrow> int option" where
  "Number s =
     (case trim s of
        [] \<Rightarrow> Some 0
      | c # cs \<Rightarrow>
          if c = CHR ''-'' then map_option uminus (unsigned_of cs)
          else if c = CHR ''+'' then unsigned_of cs
          else unsigned_of (c # cs))"

text \<open>
  One element of \<open>setsPayload\<close>, for the set at \<open>index\<close>:
  \<^verbatim>\<open>
  set_number: index + 1,
  target_rep_range: typeof set.reps === "string" && set.reps.includes("-") ? set.reps : null,
  target_reps: typeof set.reps === "number" ? set.reps : Number(set.reps) || null,
  target_rest_seconds: set.rest != null ? Number(set.rest) : null,
  target_weight: set.weight ?? null\<close>
\<close>

definition set_payload :: "uuid \<Rightarrow> nat \<Rightarrow> exercise_set_input \<Rightarrow> routine_exercise_set_row" where
  "set_payload routineExerciseId index s =
     \<lparr>rs_routine_exercise_id = routineExerciseId,
      rs_set_number = index + 1,
      rs_target_rep_range =
        (case set_reps s of
           Some (Inl str) \<Rightarrow> if CHR ''-'' \<in> set str then Some str else None
         | _ \<Rightarrow> None),
      rs_target_reps =
        (case set_reps s of
           Some (Inr n) \<Rightarrow> Some n
         | Some (Inl str) \<Rightarrow>
             (case Number str of Some v \<Rightarrow> if v \<noteq> 0 then Some v else None | None \<Rightarrow> None)
         | None \<Rightarrow> None),
      rs_target_rest_seconds =
        (case set_rest s of
           None \<Rightarrow> None
         | Some (Inr n) \<Rightarrow> Some n
         | Some (Inl str) \<Rightarrow> Number str),
      rs_target_weight = set_weight s\<rparr>"

definition setsPayload :: "uuid \<Rightarrow> exercise_set_input list \<Rightarrow> routine_exercise_set_row list" where
  "setsPayload routineExerciseId sets =
     map (\<lambda>(index, s). set_payload routineExerciseId index s) (zip [0 ..< length sets] sets)"


subsection \<open>Requests on \<open>routines\<close>, \<open>routine_exercises\<close>, \<open>routine_exercise_sets\<close>\<close>

text \<open>
  \<open>.from("routines").insert(payload).select("id").single()\<close>; \<open>pt_id\<close> and
  \<open>client_id\<close> reference profiles.
\<close>

definition insert_routine :: "uuid \<Rightarrow> uuid \<Rightarrow> string \<Rightarrow> store \<Rightarrow> (db_error + routine_row) \<times> store" where
  "insert_routine ptId clientId name st =
     (case request st of
        (True, st') \<Rightarrow> (Inl Unavailable, st')
      | (False, st') \<Rightarrow>
          if ptId \<notin> set (profiles st') \<or> clientId \<notin> set (profiles st')
          then (Inl ForeignKeyViolation, st')
          else
            let row = \<lparr>rt_id = next_uuid st', rt_pt_id = ptId, rt_client_id = clientId,
                       rt_routine_name = name\<rparr>
            in (Inr row, st'\<lparr>routines := routines st' @ [row], next_uuid := next_uuid st' + 1\<rparr>))"

text \<open>
  \<open>.from("routines").update(payload).eq("id", routineId).eq("pt_id", ptId)\<close>: the rows
  that match are rewritten; when none matches nothing is written and nothing fails.
\<close>

definition update_routine :: "uuid \<Rightarrow> uuid \<Rightarrow> uuid \<Rightarrow> string \<Rightarrow> store \<Rightarrow> (db_error + unit) \<times> store" where
  "update_routine routineId ptId clientId name st =
     (case request st of
        (True, st') \<Rightarrow> (Inl Unavailable, st')
      | (False, st') \<Rightarrow>
          if \<not> (\<exists>r \<in> set (routines st'). rt_id r = routineId \<and> rt_pt_id r = ptId)
          then (Inr (), st')
          else if ptId \<notin> set (profiles st') \<or> clientId \<notin> set (profiles st')
          then (Inl ForeignKeyViolation, st')
          else
            (Inr (), st'\<lparr>routines :=
               map (\<lambda>r. if rt_id r = routineId \<and> rt_pt_id r = ptId
                         then r\<lparr>rt_pt_id := ptId, rt_client_id := clientId, rt_routine_name := name\<rparr>
                         else r) (routines st')\<rparr>))"

text \<open>
  \<open>.from("routine_exercises").delete().eq("routine_id", routineId)\<close>; the sets of a
  deleted exercise row go with it (\<open>ON DELETE CASCADE\<close>).
\<close>

definition delete_routine_exercises :: "uuid \<Rightarrow> store \<Rightarrow> (db_error + unit) \<times> store" where
  "delete_routine_exercises routineId st =
     (case request st of
        (True, st') \<Rightarrow> (Inl Unavailable, st')
      | (False, st') \<Rightarrow>
          let gone = map re_id (filter (\<lambda>r. re_routine_id r = routineId) (routine_exercises st'))
          in (Inr (), st'\<lparr>routine_exercises :=
                            filter (\<lambda>r. re_routine_id r \<noteq> routineId) (routine_exercises st'),
                          routine_exercise_sets :=
                            filter (\<lambda>s. rs_routine_exercise_id s \<notin> set gone) (routine_exercise_sets st')\<rparr>))"

text \<open>
  \<open>.from("routine_exercises").insert({routine_id, exercise_id, position, notes})
  .select("id").single()\<close>; \<open>routine_id\<close> references a routine and \<open>exercise_id\<close> a
  catalog entry.
\<close>

definition insert_routine_exercise ::
  "uuid \<Rightarrow> uuid \<Rightarrow> nat \<Rightarrow> string option \<Rightarrow> store \<Rightarrow> (db_error + routine_exercise_row) \<times> store" where
  "insert_routine_exercise routineId exerciseId position notes st =
     (case request st of
        (True, st') \<Rightarrow> (Inl Unavailable, st')
      | (False, st') \<Rightarrow>
          if routineId \<notin> rt_id ` set (routines st') \<or> exerciseId \<notin> cat_id ` set (exercises_catalog st')
          then (Inl ForeignKeyViolation, st')
          else
            let row = \<lparr>re_id = next_uuid st', re_routine_id = routineId, re_exercise_id = exerciseId,
                       re_position = position, re_notes = notes\<rparr>
            in (Inr row, st'\<lparr>routine_exercises := routine_exercises st' @ [row],
                             next_uuid := next_uuid st' + 1\<rparr>))"

text \<open>
  The column checks of \<open>routine_exercise_sets\<close>: \<open>set_number\<close> and \<open>target_reps\<close> are
  positive \<open>smallint\<close>s, \<open>target_weight\<close> is a non-negative \<open>numeric(8,2)\<close>,
  \<open>target_rest_seconds\<close> a non-negative \<open>integer\<close>.
\<close>

definition set_row_ok :: "routine_exercise_set_row \<Rightarrow> bool" where
  "set_row_ok r =
     (0 < rs_set_number r \<and> rs_set_number r \<le> 32767
      \<and> (case rs_target_reps r of None \<Rightarrow> True | Some n \<Rightarrow> 0 < n \<and> n \<le> 32767)
      \<and> (case rs_target_weight r of None \<Rightarrow> True | Some w \<Rightarrow> 0 \<le> w \<and> w < 1000000)
      \<and> (case rs_target_rest_seconds r of None \<Rightarrow> True | Some n \<Rightarrow> 0 \<le> n \<and> n \<le> 2147483647))"

text \<open>
  \<open>.from("routine_exercise_sets").insert(setsPayload)\<close>: one statement, so all rows are
  stored or none; \<open>(routine_exercise_id, set_number)\<close> is unique.
\<close>

definition insert_routine_exercise_sets ::
  "routine_exercise_set_row list \<Rightarrow> store \<Rightarrow> (db_error + unit) \<times> store" where
  "insert_routine_exercise_sets rows st =
     (case request st of
        (True, st') \<Rightarrow> (Inl Unavailable, st')
      | (False, st') \<Rightarrow>
          if \<exists>r \<in> set rows. rs_routine_exercise_id r \<notin> re_id ` set (routine_exercises st')
          then (Inl ForeignKeyViolation, st')
          else if \<exists>r \<in> set rows. \<not> set_row_ok r
          then (Inl CheckViolation, st')
          else if \<not> distinct (map (\<lambda>r. (rs_routine_exercise_id r, rs_set_number r))
                                 (routine_exercise_sets st' @ rows))
          then (Inl UniqueViolation, st')
          else (Inr (), st'\<lparr>routine_exercise_sets := routine_exercise_sets st' @ rows\<rparr>))"


subsection \<open>\<open>upsertRoutine\<close>\<close>

record upsert_params =
  p_routineId :: "uuid option"
  p_ptId :: uuid
  p_clientId :: uuid
  p_name :: string
  p_exercises :: "exercise_input list"

text \<open>
  Lines 901 to 929: the routine row. Without a \<open>routineId\<close> the row is inserted; with
  one it is updated and the routine's exercise rows are deleted. A failed insert or
  update is logged and thrown; the answer of the delete request is not looked at.
\<close>

definition write_routine_row :: "upsert_params \<Rightarrow> store \<Rightarrow> (js_error + uuid) \<times> store" where
  "write_routine_row params st =
     (case p_routineId params of
        None \<Rightarrow>
          (case insert_routine (p_ptId params) (p_clientId params) (p_name params) st of
             (Inl error, st') \<Rightarrow>
               (Inl (Error ''Routine creation failed''), console_error ''Failed to create routine'' st')
           | (Inr data, st') \<Rightarrow> (Inr (rt_id data), st'))
      | Some routineId \<Rightarrow>
          (case update_routine routineId (p_ptId params) (p_clientId params) (p_name params) st of
             (Inl error, st') \<Rightarrow>
               (Inl (Error ''Routine update failed''), console_error ''Failed to update routine'' st')
           | (Inr _, st') \<Rightarrow> (Inr routineId, snd (delete_routine_exercises routineId st'))))"

text \<open>
  Lines 931 to 972: the loop over \<open>params.exercises\<close> with its counter \<open>position\<close>. An
  exception of \<open>resolveExerciseCatalogId\<close> leaves the loop and the function; a failed
  insert of the exercise row is logged and the loop continues with the next exercise
  (\<open>position\<close> unchanged); a failed insert of the sets is logged.
\<close>

fun insert_exercises ::
  "uuid \<Rightarrow> uuid \<Rightarrow> exercise_input list \<Rightarrow> nat \<Rightarrow> store \<Rightarrow> (js_error + unit) \<times> store" where
  "insert_exercises ptId routineId [] position st = (Inr (), st)"
| "insert_exercises ptId routineId (exercise # rest) position st =
     (case resolveExerciseCatalogId ptId exercise st of
        (Inl thrown, st1) \<Rightarrow> (Inl thrown, st1)
      | (Inr exerciseId, st1) \<Rightarrow>
          (case insert_routine_exercise routineId exerciseId position (ex_notes exercise) st1 of
             (Inl error, st2) \<Rightarrow>
               insert_exercises ptId routineId rest position
                 (console_error ''Failed to insert routine exercise'' st2)
           | (Inr routineExercise, st2) \<Rightarrow>
               let sets = ex_sets exercise;
                   st3 =
                     (if sets \<noteq> [] then
                        (case insert_routine_exercise_sets
                                (setsPayload (re_id routineExercise) sets) st2 of
                           (Inl setError, st') \<Rightarrow> console_error ''Failed to insert routine sets'' st'
                         | (Inr _, st') \<Rightarrow> st')
                      else st2)
               in insert_exercises ptId routineId rest (position + 1) st3))"

definition upsertRoutine :: "upsert_params \<Rightarrow> store \<Rightarrow> (js_error + uuid) \<times> store" where
  "upsertRoutine params st =
     (case write_routine_row params st of
        (Inl thrown, st') \<Rightarrow> (Inl thrown, st')
      | (Inr routineId, st') \<Rightarrow>
          (case insert_exercises (p_ptId params) routineId (p_exercises params) 0 st' of
             (Inl thrown, st'') \<Rightarrow> (Inl thrown, st'')
           | (Inr _, st'') \<Rightarrow> (Inr routineId, st'')))"

text \<open>
  The exercise rows of a routine as the store holds them, and what makes a catalog entry
  the one the resolver answers an exercise with: it belongs to the trainer and it is the
  entry of the given \<open>catalogId\<close>, or its name matches the trimmed name as an \<open>.ilike\<close>
  pattern, or its name is the trimmed name (the entry just inserted).
\<close>

definition rows_of :: "uuid \<Rightarrow> store \<Rightarrow> routine_exercise_row list" where
  "rows_of routineId st = filter (\<lambda>r. re_routine_id r = routineId) (routine_exercises st)"

definition answers :: "uuid \<Rightarrow> exercise_input \<Rightarrow> catalog_row \<Rightarrow> bool" where
  "answers ptId exercise entry =
     (cat_pt_id entry = ptId
      \<and> (ex_catalogId exercise = Some (cat_id entry)
         \<or> ilike (trim (ex_name exercise)) (cat_name entry)
         \<or> cat_name entry = trim (ex_name exercise)))"


text \<open>
  \<open>skipped\<close> counts the exercises the server logged as not inserted. \<open>row_for\<close> ties an
  exercise row to the submitted exercise it stores: the notes are the submitted ones and
  the row points at a catalog entry that answers the exercise.
\<close>

definition skipped :: "store \<Rightarrow> nat" where
  "skipped st = count_list (console st) ''Failed to insert routine exercise''"

definition row_for :: "uuid \<Rightarrow> store \<Rightarrow> routine_exercise_row \<Rightarrow> exercise_input \<Rightarrow> bool" where
  "row_for ptId st row exercise =
     (re_notes row = ex_notes exercise
      \<and> (\<exists>entry \<in> set (exercises_catalog st).
            cat_id entry = re_exercise_id row \<and> answers ptId exercise entry))"

text \<open>
  What a step of the upsert leaves alone. \<open>loop_frame\<close>: profiles and routines stay, the
  catalog only grows at its end, the id counter only grows, an empty outage plan stays
  empty. \<open>frame\<close>: moreover the exercise rows, the set rows and \<open>skipped\<close> stay.
\<close>

definition loop_frame :: "store \<Rightarrow> store \<Rightarrow> bool" where
  "loop_frame st st' =
     (profiles st' = profiles st \<and> routines st' = routines st
      \<and> (\<exists>more. exercises_catalog st' = exercises_catalog st @ more)
      \<and> next_uuid st \<le> next_uuid st'
      \<and> (outages st = [] \<longrightarrow> outages st' = []))"

definition frame :: "store \<Rightarrow> store \<Rightarrow> bool" where
  "frame st st' =
     (loop_frame st st'
      \<and> routine_exercises st' = routine_exercises st
      \<and> routine_exercise_sets st' = routine_exercise_sets st
      \<and> skipped st' = skipped st)"


section \<open>Health alert correlator\<close>

datatype health_issue_status = ACUTE | LINGERING | RESOLVED

datatype calendar_event_type = SessionEvent | BreakEvent | StudioEvent

record HealthLog =
  hl_id :: uuid
  hl_client_id :: uuid
  hl_injury_title :: string
  hl_details :: "string option"
  hl_status :: health_issue_status
  hl_logged_at :: instant
  hl_created_by_pt :: "uuid option"

record calendar_event =
  ev_id :: uuid
  ev_title :: string
  ev_pt_id :: uuid
  ev_client_id :: "uuid option"
  ev_start_at :: instant
  ev_end_at :: instant
  ev_event_type :: calendar_event_type

record alert =
  alert_eventId :: uuid
  alert_clientId :: uuid
  alert_clientName :: string
  alert_sessionStart :: instant
  alert_sessionEnd :: instant
  alert_injuryTitle :: string
  alert_status :: health_issue_status

text \<open>
  \<open>.from("client_health_logs").select(...).in("client_id", clientIds)
  .order("logged_at", { ascending: false })\<close>
\<close>

definition fetch_health_logs :: "uuid list \<Rightarrow> HealthLog list \<Rightarrow> HealthLog list" where
  "fetch_health_logs clientIds client_health_logs =
     sort_key (\<lambda>log. - hl_logged_at log)
       (filter (\<lambda>log. hl_client_id log \<in> set clientIds) client_health_logs)"

definition healthLogsByClient :: "HealthLog list \<Rightarrow> uuid \<Rightarrow> HealthLog list" where
  "healthLogsByClient healthLogs clientId = filter (\<lambda>log. hl_client_id log = clientId) healthLogs"

definition is_active :: "HealthLog \<Rightarrow> bool" where
  "is_active log = (hl_status log = ACUTE \<or> hl_status log = LINGERING)"

definition activeIssueByClient :: "HealthLog list \<Rightarrow> uuid \<Rightarrow> HealthLog option" where
  "activeIssueByClient healthLogs clientId = find is_active (healthLogsByClient healthLogs clientId)"

text \<open>
  \<open>.from("pt_calendar_events").select(...).eq("pt_id", profile.id).eq("event_type", "session")
  .gte("start_at", new Date()).lte("start_at", new Date(Date.now() + 15 * 60 * 1000))\<close>;
  the clock is read twice, \<open>now\<close> for the lower and \<open>now'\<close> for the upper bound.
\<close>

definition fetch_upcoming_sessions ::
  "uuid \<Rightarrow> instant \<Rightarrow> instant \<Rightarrow> calendar_event list \<Rightarrow> calendar_event list" where
  "fetch_upcoming_sessions ptId now now' pt_calendar_events =
     filter (\<lambda>e. ev_pt_id e = ptId \<and> ev_event_type e = SessionEvent
                 \<and> ev_start_at e \<ge> now \<and> ev_start_at e \<le> now' + 15 * 60 * 1000)
       pt_calendar_events"

text \<open>
  The alerts of the trainer dashboard (lines 704 to 793, every request answered): no
  alert at all without an actively assigned client; otherwise one for each upcoming
  session that has a client for whom an active issue was loaded. \<open>full_name\<close> gives the
  name of a client profile.
\<close>

definition dashboard_alerts ::
  "uuid \<Rightarrow> uuid list \<Rightarrow> (uuid \<Rightarrow> string option) \<Rightarrow> HealthLog list \<Rightarrow> calendar_event list
     \<Rightarrow> instant \<Rightarrow> instant \<Rightarrow> alert list" where
  "dashboard_alerts ptId clientIds full_name client_health_logs pt_calendar_events now now' =
     (if clientIds = [] then []
      else
        let healthLogs = fetch_health_logs clientIds client_health_logs;
            upcomingSessions = fetch_upcoming_sessions ptId now now' pt_calendar_events
        in List.map_filter
             (\<lambda>session.
                case ev_client_id session of
                  None \<Rightarrow> None
                | Some client \<Rightarrow>
                    (case activeIssueByClient healthLogs client of
                       None \<Rightarrow> None
                     | Some issue \<Rightarrow>
                         Some \<lparr>alert_eventId = ev_id session,
                               alert_clientId = client,
                               alert_clientName =
                                 (case (if client \<in> set clientIds then full_name client else None) of
                                    Some name \<Rightarrow> name | None \<Rightarrow> ''Client''),
                               alert_sessionStart = ev_start_at session,
                               alert_sessionEnd = ev_end_at session,
                               alert_injuryTitle = hl_injury_title issue,
                               alert_status = hl_status issue\<rparr>))
             upcomingSessions)"


section \<open>Example data\<close>

definition example_store :: store where
  "example_store =
     \<lparr>profiles = [1, 2], exercises_catalog = [], routines = [], routine_exercises = [],
      routine_exercise_sets = [], next_uuid = 100, outages = [], console = []\<rparr>"

definition named_exercise :: "string \<Rightarrow> exercise_input" where
  "named_exercise name =
     \<lparr>ex_catalogId = None, ex_name = name, ex_notes = None, ex_defaultRestSeconds = None,
      ex_sets = []\<rparr>"


section \<open>Properties of the rep-range fallback\<close>

text \<open>
  C3, as the code has it. When both bounds are present and equal the function returns the
  bound itself, not the literal default: at 8 and 8 it returns \<open>8\<close>.
\<close>

theorem formatRepsFallback_equal_bounds:
  "formatRepsFallback (Some 8) (Some 8) = ''8'' \<and> formatRepsFallback (Some 8) (Some 8) \<noteq> ''10''"
  by (simp add: formatRepsFallback_def String_def string_of_nat.simps digit_char_def)

text \<open>
  C3 (amended): a bound is present when it is neither \<open>null\<close> nor \<open>0\<close>. With both bounds
  present and distinct the result is \<open>min-max\<close>; with \<open>min\<close> present and \<open>max\<close> absent or
  equal to \<open>min\<close> the result is \<open>min\<close>; with \<open>min\<close> absent the result is the literal
  \<open>10\<close>.
\<close>

theorem formatRepsFallback_cases:
  "(a \<noteq> 0 \<and> b \<noteq> 0 \<and> a \<noteq> b \<longrightarrow>
      formatRepsFallback (Some a) (Some b) = String a @ ''-'' @ String b)
   \<and> (a \<noteq> 0 \<longrightarrow> formatRepsFallback (Some a) None = String a)
   \<and> (a \<noteq> 0 \<longrightarrow> formatRepsFallback (Some a) (Some 0) = String a)
   \<and> (a \<noteq> 0 \<longrightarrow> formatRepsFallback (Some a) (Some a) = String a)
   \<and> formatRepsFallback None mx = ''10''
   \<and> formatRepsFallback (Some 0) mx = ''10''"
  by (cases mx) (simp_all add: formatRepsFallback_def)

theorem formatRepsFallback_cases_witness:
  "formatRepsFallback (Some 8) (Some 12) = ''8-12''
   \<and> formatRepsFallback (Some 8) None = ''8''
   \<and> formatRepsFallback (Some 8) (Some 0) = ''8''
   \<and> formatRepsFallback (Some 8) (Some 8) = ''8''
   \<and> formatRepsFallback None (Some 12) = ''10''
   \<and> formatRepsFallback (Some 0) (Some 12) = ''10''"
proof -
  have s: "String 8 = ''8''" "String 12 = ''12''"
    by (simp_all add: String_def string_of_nat.simps digit_char_def)
  show ?thesis
    using formatRepsFallback_cases [of 8 12 "Some 12"] s by simp
qed


section \<open>Properties of the streak calculator\<close>

lemma run_back_exists:
  assumes "finite S"
  shows "\<exists>k. d - int k \<notin> S"
proof (rule ccontr)
  assume "\<not> (\<exists>k. d - int k \<notin> S)"
  then have sub: "range (\<lambda>k. d - int k) \<subseteq> S" by auto
  have "inj (\<lambda>k. d - int k)" by (simp add: inj_on_def)
  then have "infinite (range (\<lambda>k. d - int k))"
    using finite_imageD by blast
  with sub assms show False using finite_subset by blast
qed

lemma run_back_stop:
  "finite S \<Longrightarrow> d - int (run_back S d) \<notin> S"
  unfolding run_back_def using run_back_exists [of S d] by (metis (mono_tags, lifting) LeastI_ex)

lemma run_back_below:
  "i < run_back S d \<Longrightarrow> d - int i \<in> S"
  unfolding run_back_def using not_less_Least by blast

lemma run_back_eq:
  "(\<And>i. i < k \<Longrightarrow> d - int i \<in> S) \<Longrightarrow> d - int k \<notin> S \<Longrightarrow> run_back S d = k"
  unfolding run_back_def
  by (rule Least_equality) (auto simp: not_less [symmetric])

lemma run_back_notin: "d \<notin> S \<Longrightarrow> run_back S d = 0"
  by (rule run_back_eq) auto

lemma run_back_insert_top:
  assumes fin: "finite S" and top: "\<And>y. y \<in> S \<Longrightarrow> y < x"
  shows "run_back (insert x S) x = Suc (run_back S (x - 1))"
proof (rule run_back_eq)
  fix i assume i: "i < Suc (run_back S (x - 1))"
  show "x - int i \<in> insert x S"
  proof (cases i)
    case 0 then show ?thesis by simp
  next
    case (Suc j)
    with i have "j < run_back S (x - 1)" by simp
    then have "x - 1 - int j \<in> S" by (rule run_back_below)
    with Suc show ?thesis by (simp add: algebra_simps)
  qed
next
  have "x - 1 - int (run_back S (x - 1)) \<notin> S" using fin by (rule run_back_stop)
  moreover have "x - int (Suc (run_back S (x - 1))) \<noteq> x" by simp
  ultimately show "x - int (Suc (run_back S (x - 1))) \<notin> insert x S"
    by (simp add: algebra_simps)
qed

lemma runs_bounded:
  assumes fin: "finite S" and run: "\<forall>i<k. d + int i \<in> S"
  shows "k \<le> card S"
proof -
  have "(\<lambda>i. d + int i) ` {..<k} \<subseteq> S" using run by auto
  then have "card ((\<lambda>i. d + int i) ` {..<k}) \<le> card S" using fin by (rule card_mono[rotated])
  moreover have "inj_on (\<lambda>i. d + int i) {..<k}" by (simp add: inj_on_def)
  ultimately show ?thesis by (simp add: card_image)
qed

lemma runs_finite:
  assumes "finite S"
  shows "finite {k. \<exists>d. \<forall>i<k. d + int i \<in> S}"
proof -
  have "{k. \<exists>d. \<forall>i<k. d + int i \<in> S} \<subseteq> {..card S}"
    using runs_bounded [OF assms] by auto
  then show ?thesis using finite_subset by blast
qed

lemma longest_run_ge:
  assumes "finite S" and "\<forall>i<k. d + int i \<in> S"
  shows "k \<le> longest_run S"
  unfolding longest_run_def
  using runs_finite [OF assms(1)] assms(2) by (intro Max_ge) auto

lemma longest_run_le:
  assumes fin: "finite S" and bound: "\<And>k d. \<forall>i<k. d + int i \<in> S \<Longrightarrow> k \<le> n"
  shows "longest_run S \<le> n"
proof -
  have ne: "{k. \<exists>d. \<forall>i<k. d + int i \<in> S} \<noteq> {}"
  proof -
    have "(0::nat) \<in> {k. \<exists>d. \<forall>i<k. d + int i \<in> S}" by simp
    then show ?thesis by blast
  qed
  show ?thesis
    unfolding longest_run_def
    using runs_finite [OF fin] ne bound by (subst Max_le_iff) auto
qed

lemma longest_run_witness:
  assumes fin: "finite S"
  shows "\<exists>d. \<forall>i<longest_run S. d + int i \<in> S"
proof -
  have ne: "{k. \<exists>d. \<forall>i<k. d + int i \<in> S} \<noteq> {}"
  proof -
    have "(0::nat) \<in> {k. \<exists>d. \<forall>i<k. d + int i \<in> S}" by simp
    then show ?thesis by blast
  qed
  have "Max {k. \<exists>d. \<forall>i<k. d + int i \<in> S} \<in> {k. \<exists>d. \<forall>i<k. d + int i \<in> S}"
    using runs_finite [OF fin] ne by (rule Max_in)
  then show ?thesis by (simp add: longest_run_def)
qed

lemma run_back_le_longest:
  assumes fin: "finite S"
  shows "run_back S d \<le> longest_run S"
proof -
  let ?r = "run_back S d"
  have "\<forall>i<?r. (d - int ?r + 1) + int i \<in> S"
  proof (intro allI impI)
    fix i assume i: "i < ?r"
    then have "?r - 1 - i < ?r" by simp
    then have mem: "d - int (?r - 1 - i) \<in> S" by (rule run_back_below)
    have eq: "d - int (?r - 1 - i) = (d - int ?r + 1) + int i" using i by (simp add: algebra_simps of_nat_diff)
    show "(d - int ?r + 1) + int i \<in> S" using mem unfolding eq .
  qed
  then show ?thesis using fin longest_run_ge by blast
qed

lemma longest_run_insert_top:
  assumes fin: "finite S" and top: "\<And>y. y \<in> S \<Longrightarrow> y < x"
  shows "longest_run (insert x S) = max (longest_run S) (run_back (insert x S) x)"
proof (rule antisym)
  have fin': "finite (insert x S)" using fin by simp
  show "longest_run (insert x S) \<le> max (longest_run S) (run_back (insert x S) x)"
  proof (rule longest_run_le [OF fin'])
    fix k d assume run: "\<forall>i<k. d + int i \<in> insert x S"
    show "k \<le> max (longest_run S) (run_back (insert x S) x)"
    proof (cases "\<forall>i<k. d + int i \<in> S")
      case True
      then have "k \<le> longest_run S" using fin longest_run_ge by blast
      then show ?thesis by simp
    next
      case False
      then obtain i0 where i0: "i0 < k" "d + int i0 \<notin> S" by blast
      with run have x: "d + int i0 = x" by auto
      have "i0 = k - 1"
      proof (rule ccontr)
        assume "i0 \<noteq> k - 1"
        with i0 have "Suc i0 < k" by simp
        with run have "d + int (Suc i0) \<in> insert x S" by blast
        with x have "x + 1 \<in> insert x S" by (simp add: algebra_simps)
        then have "x + 1 \<in> S" by simp
        then show False using top by fastforce
      qed
      have "\<not> run_back (insert x S) x < k"
      proof
        assume lt: "run_back (insert x S) x < k"
        let ?r = "run_back (insert x S) x"
        have "k - 1 - ?r < k" using lt by simp
        with run have "d + int (k - 1 - ?r) \<in> insert x S" by blast
        moreover have "d + int (k - 1 - ?r) = x - int ?r"
          using x \<open>i0 = k - 1\<close> lt i0 by (simp add: algebra_simps of_nat_diff)
        ultimately have "x - int ?r \<in> insert x S" by simp
        then show False using run_back_stop [OF fin', of x] by simp
      qed
      then show ?thesis by simp
    qed
  qed
  show "max (longest_run S) (run_back (insert x S) x) \<le> longest_run (insert x S)"
  proof -
    obtain d where "\<forall>i<longest_run S. d + int i \<in> S" using longest_run_witness [OF fin] by blast
    then have "\<forall>i<longest_run S. d + int i \<in> insert x S" by simp
    then have "longest_run S \<le> longest_run (insert x S)" using fin' longest_run_ge by blast
    moreover have "run_back (insert x S) x \<le> longest_run (insert x S)"
      using fin' by (rule run_back_le_longest)
    ultimately show ?thesis by simp
  qed
qed

lemma longest_run_empty: "longest_run {} = 0"
proof -
  have "{k::nat. \<exists>d::int. \<forall>i<k. d + int i \<in> {}} = {0}" by auto
  then show ?thesis by (simp add: longest_run_def)
qed

lemma foldl_Set_of_list:
  "distinct acc \<Longrightarrow>
   distinct (foldl (\<lambda>acc x. if x \<in> set acc then acc else acc @ [x]) acc xs) \<and>
   set (foldl (\<lambda>acc x. if x \<in> set acc then acc else acc @ [x]) acc xs) = set acc \<union> set xs"
  by (induction xs arbitrary: acc) auto

lemma Set_of_list_props: "distinct (Set_of_list xs) \<and> set (Set_of_list xs) = set xs"
  using foldl_Set_of_list [of "[]" xs] by (simp add: Set_of_list_def)

lemma round_div_midnights:
  "Math_round_div (midnightOf a - midnightOf b) MS_PER_DAY = a - b"
proof -
  have "2 * (a * 86400000 - b * 86400000) + 86400000 = (a - b) * (2 * 86400000) + (86400000::int)"
    by (simp add: algebra_simps)
  then show ?thesis
    by (simp add: Math_round_div_def midnightOf_def MS_PER_DAY_def)
qed

lemma run_back_singleton: "run_back {x} x = 1"
  using run_back_insert_top [of "{}" x] by (simp add: run_back_notin)

lemma longest_run_singleton: "longest_run {x} = 1"
  using longest_run_insert_top [of "{}" x] by (simp add: longest_run_empty run_back_singleton)

lemma scan_ascending:
  "sorted_wrt (<) xs \<Longrightarrow> xs \<noteq> [] \<Longrightarrow>
   foldl scanDate (0, 0, None) xs =
     (longest_run (set xs), run_back (set xs) (last xs), Some (midnightOf (last xs)))"
proof (induction xs rule: rev_induct)
  case Nil
  then show ?case by simp
next
  case (snoc x ys)
  show ?case
  proof (cases "ys = []")
    case True
    then show ?thesis
      by (simp add: scanDate_def run_back_singleton longest_run_singleton)
  next
    case False
    from snoc.prems have asc: "sorted_wrt (<) ys" and top: "\<And>y. y \<in> set ys \<Longrightarrow> y < x"
      by (auto simp: sorted_wrt_append)
    from False obtain zs p where ys: "ys = zs @ [p]" by (metis rev_exhaust)
    with asc have below: "\<And>y. y \<in> set ys \<Longrightarrow> y \<le> p"
      by (auto simp: sorted_wrt_append)
    have p: "p \<in> set ys" "last ys = p" using ys by simp_all
    have IH: "foldl scanDate (0, 0, None) ys =
        (longest_run (set ys), run_back (set ys) p, Some (midnightOf p))"
      using snoc.IH [OF asc False] p by simp
    have rb: "run_back (insert x (set ys)) x = (if x - p = 1 then run_back (set ys) p + 1 else 1)"
    proof (cases "x - p = 1")
      case True
      then have "x - 1 = p" by simp
      then show ?thesis using run_back_insert_top [of "set ys" x] top by simp
    next
      case False
      have "x - 1 \<notin> set ys"
      proof
        assume "x - 1 \<in> set ys"
        then have "x - 1 \<le> p" by (rule below)
        moreover have "p < x" using p top by blast
        ultimately show False using False by simp
      qed
      then have "run_back (set ys) (x - 1) = 0" by (rule run_back_notin)
      then show ?thesis using run_back_insert_top [of "set ys" x] top False by simp
    qed
    have lr: "longest_run (insert x (set ys)) =
        max (longest_run (set ys)) (run_back (insert x (set ys)) x)"
      using longest_run_insert_top [of "set ys" x] top by simp
    have "foldl scanDate (0, 0, None) (ys @ [x]) =
        scanDate (longest_run (set ys), run_back (set ys) p, Some (midnightOf p)) x"
      by (simp only: foldl_append foldl_Cons foldl_Nil IH)
    also have "\<dots> = (longest_run (insert x (set ys)), run_back (insert x (set ys)) x,
        Some (midnightOf x))"
      by (simp add: scanDate_def round_div_midnights lr rb)
    finally show ?thesis by simp
  qed
qed

lemma walkBack_run_back:
  "sorted_wrt (>) ds \<Longrightarrow> (\<And>y. y \<in> set ds \<Longrightarrow> y < e) \<Longrightarrow>
   walkBack e ds c = c + run_back (set ds) (e - 1)"
proof (induction ds arbitrary: e c)
  case Nil
  then show ?case by (simp add: run_back_notin)
next
  case (Cons d ds)
  have lower: "\<And>y. y \<in> set ds \<Longrightarrow> y < d" using Cons.prems(1) by auto
  have desc: "sorted_wrt (>) ds" using Cons.prems(1) by simp
  show ?case
  proof (cases "d = e - 1")
    case True
    have "walkBack e (d # ds) c = walkBack (e - 1) ds (c + 1)" using True by simp
    also have "\<dots> = c + 1 + run_back (set ds) (e - 1 - 1)"
      using Cons.IH [OF desc, of "e - 1" "c + 1"] lower True by simp
    also have "\<dots> = c + run_back (insert d (set ds)) d"
      using run_back_insert_top [of "set ds" d] lower True by simp
    finally show ?thesis using True by simp
  next
    case False
    have "d < e" using Cons.prems(2) by simp
    with False have "d < e - 1" by simp
    then have "e - 1 \<notin> set (d # ds)" using lower by fastforce
    then have "run_back (set (d # ds)) (e - 1) = 0" by (rule run_back_notin)
    then show ?thesis using False by simp
  qed
qed

lemma sorted_last_Max:
  "sorted_wrt (<) xs \<Longrightarrow> xs \<noteq> [] \<Longrightarrow> last xs = Max (set xs)"
proof (induction xs rule: rev_induct)
  case Nil then show ?case by simp
next
  case (snoc x ys)
  then have "\<And>y. y \<in> set ys \<Longrightarrow> y < x" by (auto simp: sorted_wrt_append)
  then have "Max (insert x (set ys)) = x"
    by (intro Max_eqI) (auto simp: less_imp_le)
  then show ?case by simp
qed


lemma dates_props:
  "sorted_wrt (<) (sort (Set_of_list (map isoDate logs)))"
  "set (sort (Set_of_list (map isoDate logs))) = isoDate ` set logs"
  using Set_of_list_props [of "map isoDate logs"]
  by (simp_all add: strict_sorted_iff)

lemma longestStreak_run:
  "longestStreak (computeStreakStats logs now) = longest_run (isoDate ` set logs)"
proof (cases "logs = []")
  case True
  then show ?thesis by (simp add: computeStreakStats_def longest_run_empty)
next
  case False
  then have "set (sort (Set_of_list (map isoDate logs))) \<noteq> {}"
    unfolding dates_props(2) by simp
  then have ne: "sort (Set_of_list (map isoDate logs)) \<noteq> []"
    by (metis set_empty)
  show ?thesis
    using False scan_ascending [OF dates_props(1) ne]
    by (simp add: computeStreakStats_def Let_def Set_of_list_props)
qed

lemma currentStreak_run:
  "currentStreak (computeStreakStats logs now) =
     (if logs \<noteq> [] \<and> Max (isoDate ` set logs) = isoDate now
      then run_back (isoDate ` set logs) (isoDate now) else 0)"
proof (cases "logs = []")
  case True
  then show ?thesis by (simp add: computeStreakStats_def)
next
  case False
  let ?xs = "sort (Set_of_list (map isoDate logs))"
  have "set ?xs \<noteq> {}" unfolding dates_props(2) using False by simp
  then have ne: "?xs \<noteq> []" by (metis set_empty)
  then obtain zs p where xs: "?xs = zs @ [p]" by (metis rev_exhaust)
  have asc: "sorted_wrt (<) (zs @ [p])" using dates_props(1) [of logs] xs by simp
  have p: "Max (isoDate ` set logs) = p"
    using sorted_last_Max [OF dates_props(1) ne] xs dates_props(2) [of logs] by simp
  have desc: "sorted_wrt (>) (rev zs)" using asc by (simp add: sorted_wrt_append sorted_wrt_rev)
  have low: "\<And>y. y \<in> set (rev zs) \<Longrightarrow> y < p" using asc by (auto simp: sorted_wrt_append)
  have S: "isoDate ` set logs = insert p (set zs)"
    using dates_props(2) [of logs] xs by auto
  have cur: "currentStreak (computeStreakStats logs now) =
      (if p = isoDate now then walkBack (isoDate now) (rev zs) 1 else 0)"
    using False xs by (simp add: computeStreakStats_def Let_def)
  show ?thesis
  proof (cases "p = isoDate now")
    case True
    have "walkBack p (rev zs) 1 = 1 + run_back (set (rev zs)) (p - 1)"
      using walkBack_run_back [OF desc, of p 1] low by blast
    also have "\<dots> = run_back (insert p (set zs)) p"
      using run_back_insert_top [of "set zs" p] low by simp
    finally have "walkBack p (rev zs) 1 = run_back (isoDate ` set logs) p"
      by (simp only: S [symmetric])
    then show ?thesis using True by (simp only: cur p \<open>logs \<noteq> []\<close>) simp
  next
    case False
    then show ?thesis by (simp only: cur p) simp
  qed
qed






text \<open>
  C10: for every list of session timestamps, empty or not, and every clock reading, the
  current streak is at most the longest streak.
\<close>

theorem currentStreak_le_longestStreak:
  "currentStreak (computeStreakStats sessionLogs now)
     \<le> longestStreak (computeStreakStats sessionLogs now)"
  by (simp add: currentStreak_run longestStreak_run run_back_le_longest)

theorem currentStreak_le_longestStreak_witness:
  "currentStreak (computeStreakStats [] 0) \<le> longestStreak (computeStreakStats [] 0)
   \<and> currentStreak (computeStreakStats [0, 86400000, 259200000] 259200000) = 1
   \<and> longestStreak (computeStreakStats [0, 86400000, 259200000] 259200000) = 2"
proof -
  have c: "currentStreak (computeStreakStats [0, 86400000, 259200000] 259200000) = 1"
    by code_simp
  have l: "longestStreak (computeStreakStats [0, 86400000, 259200000] 259200000) = 2"
    by code_simp
  show ?thesis
    using currentStreak_le_longestStreak [of "[]" 0] c l by simp
qed


section \<open>Properties of the weekly goal evaluator\<close>

lemma isoDate_midnightOf: "isoDate (midnightOf d) = d"
  by (simp add: isoDate_def midnightOf_def MS_PER_DAY_def)

lemma monday_offset: "(d - ((d + 4) mod 7 + 6) mod 7 + 4) mod 7 = (1::int)"
  by presburger

lemma offset_range: "0 \<le> ((d + 4) mod 7 + 6) mod 7 \<and> ((d + 4) mod 7 + 6) mod 7 \<le> (6::int)"
  by presburger

lemma startOfWeek_eq:
  "startOfWeek t = midnightOf (isoDate t - ((isoDate t + 4) mod 7 + 6) mod 7)"
  by (simp add: startOfWeek_def Let_def getUTCDay_def isoDate_midnightOf)
    (simp add: midnightOf_def algebra_simps)

lemma startOfWeek_midnight: "startOfWeek t mod MS_PER_DAY = 0"
  by (simp add: startOfWeek_eq midnightOf_def)

lemma startOfWeek_monday: "getUTCDay (startOfWeek t) = 1"
  by (simp add: startOfWeek_eq getUTCDay_def isoDate_midnightOf monday_offset)

lemma MS_PER_DAY_pos: "0 < MS_PER_DAY"
  by (simp add: MS_PER_DAY_def)

lemma day_split: "t = midnightOf (isoDate t) + t mod MS_PER_DAY"
  by (simp add: midnightOf_def isoDate_def)

lemma day_bounds: "midnightOf (isoDate t) \<le> t \<and> t < midnightOf (isoDate t) + MS_PER_DAY"
  using day_split [of t] pos_mod_sign [OF MS_PER_DAY_pos, of t] pos_mod_bound [OF MS_PER_DAY_pos, of t]
  by linarith

lemma startOfWeek_contains:
  "startOfWeek t \<le> t \<and> t < startOfWeek t + 7 * MS_PER_DAY"
proof -
  let ?o = "((isoDate t + 4) mod 7 + 6) mod 7"
  have o: "0 \<le> ?o \<and> ?o \<le> 6" by (rule offset_range)
  have sw: "startOfWeek t = midnightOf (isoDate t) - ?o * MS_PER_DAY"
    by (simp add: startOfWeek_eq midnightOf_def algebra_simps)
  have pos: "0 \<le> ?o * MS_PER_DAY" using o by (simp add: MS_PER_DAY_def)
  have up: "?o * MS_PER_DAY \<le> 6 * MS_PER_DAY" using o by (simp add: MS_PER_DAY_def)
  show ?thesis using day_bounds [of t] pos up unfolding sw by linarith
qed

lemma sunday_monday:
  assumes sun: "getUTCDay t = 0" and late: "t mod MS_PER_DAY = MS_PER_DAY - 1000"
  shows "startOfWeek (t + 1000) = startOfWeek t + 7 * MS_PER_DAY"
proof -
  have "t + 1000 = (isoDate t + 1) * MS_PER_DAY"
    using day_split [of t] late by (simp add: midnightOf_def algebra_simps)
  then have d: "isoDate (t + 1000) = isoDate t + 1"
    using MS_PER_DAY_pos by (simp add: isoDate_def)
  have s: "(isoDate t + 4) mod 7 = 0" using sun by (simp add: getUTCDay_def)
  have a: "((isoDate t + 4) mod 7 + 6) mod 7 = 6" using s by simp
  have b: "((isoDate t + 1 + 4) mod 7 + 6) mod 7 = 0" using s by presburger
  show ?thesis
    unfolding startOfWeek_eq d a b by (simp add: midnightOf_def algebra_simps)
qed

lemma sunday_monday_split:
  assumes sun: "getUTCDay t = 0" and late: "t mod MS_PER_DAY = MS_PER_DAY - 1000"
  shows "startOfWeek t + 7 * MS_PER_DAY = t + 1000"
proof -
  have s: "(isoDate t + 4) mod 7 = 0" using sun by (simp add: getUTCDay_def)
  have a: "((isoDate t + 4) mod 7 + 6) mod 7 = 6" using s by simp
  have "t = isoDate t * MS_PER_DAY + (MS_PER_DAY - 1000)"
    using day_split [of t] late by (simp add: midnightOf_def)
  then show ?thesis
    unfolding startOfWeek_eq a by (simp add: midnightOf_def algebra_simps)
qed


lemma isoDate_window:
  assumes "midnightOf m \<le> t" and "t < midnightOf m + 7 * MS_PER_DAY"
  shows "m \<le> isoDate t \<and> isoDate t < m + 7"
proof -
  have pos: "0 < MS_PER_DAY" by (rule MS_PER_DAY_pos)
  have "midnightOf m div MS_PER_DAY \<le> t div MS_PER_DAY"
    using assms(1) pos by (rule zdiv_mono1)
  then have lo: "m \<le> isoDate t" using pos by (simp add: midnightOf_def isoDate_def)
  have hi: "isoDate t < m + 7"
  proof (rule ccontr)
    assume "\<not> isoDate t < m + 7"
    then have "m + 7 \<le> isoDate t" by simp
    then have "(m + 7) * MS_PER_DAY \<le> isoDate t * MS_PER_DAY"
      using pos by (simp add: mult_right_mono)
    moreover have "isoDate t * MS_PER_DAY \<le> t"
      using day_bounds [of t] by (simp add: midnightOf_def)
    ultimately show False using assms(2) by (simp add: midnightOf_def algebra_simps)
  qed
  show ?thesis using lo hi by simp
qed

lemma monday_unique:
  "(m + 4) mod 7 = 1 \<Longrightarrow> m \<le> d \<Longrightarrow> d < m + 7 \<Longrightarrow> d - ((d + 4) mod 7 + 6) mod 7 = (m::int)"
  by presburger

lemma week_unique:
  assumes "startOfWeek n \<le> t" and "t < startOfWeek n + 7 * MS_PER_DAY"
  shows "startOfWeek t = startOfWeek n"
proof -
  let ?m = "isoDate n - ((isoDate n + 4) mod 7 + 6) mod 7"
  have sw: "startOfWeek n = midnightOf ?m" by (rule startOfWeek_eq)
  have mon: "(?m + 4) mod 7 = 1" by (rule monday_offset)
  have win: "?m \<le> isoDate t \<and> isoDate t < ?m + 7"
    using assms unfolding sw by (rule isoDate_window)
  have "isoDate t - ((isoDate t + 4) mod 7 + 6) mod 7 = ?m"
    using mon win by (intro monday_unique) simp_all
  then show ?thesis by (simp only: startOfWeek_eq)
qed

text \<open>
  C8: the week start is the midnight that begins the Monday of the week holding \<open>now\<close>,
  reached by stepping \<open>(weekday + 6) mod 7\<close> days back from today's midnight;
  \<open>completed\<close> counts the sessions in the half-open week from there; the goal is the
  profile's when that is positive and the routine count otherwise. A Sunday 23:59:59 and
  the Monday 00:00:00 one second later have different week starts, and no week counts
  both.
\<close>

theorem computeWeeklyGoal_week:
  "(let ws = startOfWeek now; r = computeWeeklyGoal training_frequency_goal sessionLogs routineCount now in
      weekStart r = ws
      \<and> ws = midnightOf (isoDate now) - ((getUTCDay now + 6) mod 7) * MS_PER_DAY
      \<and> ws mod MS_PER_DAY = 0 \<and> getUTCDay ws = 1
      \<and> ws \<le> now \<and> now < ws + 7 * MS_PER_DAY
      \<and> completed r = length (filter (\<lambda>t. ws \<le> t \<and> t < ws + 7 * MS_PER_DAY) sessionLogs)
      \<and> goal r = (case training_frequency_goal of
                    Some g \<Rightarrow> if 0 < g then g else routineCount
                  | None \<Rightarrow> routineCount))
   \<and> (getUTCDay sun = 0 \<and> sun mod MS_PER_DAY = MS_PER_DAY - 1000 \<longrightarrow>
        getUTCDay (sun + 1000) = 1 \<and> (sun + 1000) mod MS_PER_DAY = 0
        \<and> startOfWeek (sun + 1000) = startOfWeek sun + 7 * MS_PER_DAY
        \<and> \<not> (startOfWeek now \<le> sun \<and> sun + 1000 < startOfWeek now + 7 * MS_PER_DAY))"
proof -
  have a: "startOfWeek now = midnightOf (isoDate now) - ((getUTCDay now + 6) mod 7) * MS_PER_DAY"
    by (simp add: startOfWeek_eq getUTCDay_def midnightOf_def algebra_simps)
  have g: "goal (computeWeeklyGoal training_frequency_goal sessionLogs routineCount now) =
      (case training_frequency_goal of Some g \<Rightarrow> if 0 < g then g else routineCount | None \<Rightarrow> routineCount)"
    by (auto simp: computeWeeklyGoal_def Let_def split: option.splits)
  have c: "completed (computeWeeklyGoal training_frequency_goal sessionLogs routineCount now) =
      length (filter (\<lambda>t. startOfWeek now \<le> t \<and> t < startOfWeek now + 7 * MS_PER_DAY) sessionLogs)"
    by (simp add: computeWeeklyGoal_def Let_def)
  have w: "weekStart (computeWeeklyGoal training_frequency_goal sessionLogs routineCount now) = startOfWeek now"
    by (simp add: computeWeeklyGoal_def Let_def)
  have first: "(let ws = startOfWeek now; r = computeWeeklyGoal training_frequency_goal sessionLogs routineCount now in
      weekStart r = ws
      \<and> ws = midnightOf (isoDate now) - ((getUTCDay now + 6) mod 7) * MS_PER_DAY
      \<and> ws mod MS_PER_DAY = 0 \<and> getUTCDay ws = 1
      \<and> ws \<le> now \<and> now < ws + 7 * MS_PER_DAY
      \<and> completed r = length (filter (\<lambda>t. ws \<le> t \<and> t < ws + 7 * MS_PER_DAY) sessionLogs)
      \<and> goal r = (case training_frequency_goal of
                    Some g \<Rightarrow> if 0 < g then g else routineCount
                  | None \<Rightarrow> routineCount))"
    unfolding Let_def
    using a g c w startOfWeek_midnight [of now] startOfWeek_monday [of now] startOfWeek_contains [of now]
    by (intro conjI) simp_all
  have second: "getUTCDay (sun + 1000) = 1 \<and> (sun + 1000) mod MS_PER_DAY = 0
        \<and> startOfWeek (sun + 1000) = startOfWeek sun + 7 * MS_PER_DAY
        \<and> \<not> (startOfWeek now \<le> sun \<and> sun + 1000 < startOfWeek now + 7 * MS_PER_DAY)"
    if sun: "getUTCDay sun = 0" and late: "sun mod MS_PER_DAY = MS_PER_DAY - 1000"
  proof -
    have e: "startOfWeek sun + 7 * MS_PER_DAY = sun + 1000" using sun late by (rule sunday_monday_split)
    have s: "startOfWeek (sun + 1000) = startOfWeek sun + 7 * MS_PER_DAY" using sun late by (rule sunday_monday)
    have m: "getUTCDay (sun + 1000) = 1" using startOfWeek_monday [of "sun + 1000"] s e by simp
    have z: "(sun + 1000) mod MS_PER_DAY = 0" using startOfWeek_midnight [of "sun + 1000"] s e by simp
    have n: "\<not> (startOfWeek now \<le> sun \<and> sun + 1000 < startOfWeek now + 7 * MS_PER_DAY)"
    proof
      assume h: "startOfWeek now \<le> sun \<and> sun + 1000 < startOfWeek now + 7 * MS_PER_DAY"
      then have "sun < startOfWeek now + 7 * MS_PER_DAY" by simp
      with h have "startOfWeek sun = startOfWeek now" by (intro week_unique) simp_all
      with e h show False by simp
    qed
    show ?thesis using m z s n by simp
  qed
  show ?thesis using first second by blast
qed

theorem computeWeeklyGoal_week_witness:
  "getUTCDay 345599000 = 0 \<and> 345599000 mod MS_PER_DAY = MS_PER_DAY - 1000
   \<and> startOfWeek (345599000 + 1000) = startOfWeek 345599000 + 7 * MS_PER_DAY
   \<and> completed (computeWeeklyGoal None [345599000, 345600000] 4 345599000) = 1
   \<and> completed (computeWeeklyGoal None [345599000, 345600000] 4 345600000) = 1
   \<and> goal (computeWeeklyGoal None [] 4 345600000) = 4"
proof -
  have h: "getUTCDay 345599000 = 0 \<and> 345599000 mod MS_PER_DAY = MS_PER_DAY - 1000"
    by (simp add: getUTCDay_def isoDate_def MS_PER_DAY_def)
  have c1: "completed (computeWeeklyGoal None [345599000, 345600000] 4 345599000) = 1"
    by code_simp
  have c2: "completed (computeWeeklyGoal None [345599000, 345600000] 4 345600000) = 1"
    by code_simp
  have c3: "goal (computeWeeklyGoal None [] 4 345600000) = 4"
    by code_simp
  show ?thesis
    using h c1 c2 c3 computeWeeklyGoal_week [of 0 None "[]" 4 345599000] by simp
qed

end
